theory Spec2Isabelle
  imports Complex_Main "HOL-Library.Extended_Nat" "HOL-Library.Product_Lexorder"
begin

section \<open>Data model of \<^verbatim>\<open>agent_task_system.py\<close>\<close>

text \<open>
  The store is an SQLite database with two tables that matter here, \<^verbatim>\<open>agents\<close> and
  \<^verbatim>\<open>agent_tasks\<close>. A table is the list of its rows in insertion order; a row is a record
  with one field per column. Nullable columns are options. Both tables declare
  \<^verbatim>\<open>id TEXT PRIMARY KEY\<close>.

  A point in time is an integer number of microseconds (the resolution of Python's
  \<^verbatim>\<open>datetime\<close>). The code stores times as ISO text; for texts of one format the text order
  used by \<^verbatim>\<open>ORDER BY assigned_at\<close> is the order of the instants. Every operation
  receives the clock readings it makes as arguments: \<open>now\<close> for \<^verbatim>\<open>datetime.now()\<close> and
  \<open>ts\<close> for SQLite's \<^verbatim>\<open>CURRENT_TIMESTAMP\<close>. The \<^verbatim>\<open>REAL\<close> columns are only stored and
  copied, never computed with.
\<close>

type_synonym timestamp = int

record agent_task =
  id_task :: string
  agent_id :: string
  title :: string
  description :: string
  priority :: int
  status :: string
  progress :: real
  assigned_at :: timestamp
  started_at :: "timestamp option"
  completed_at :: "timestamp option"
  estimated_duration :: int
  actual_duration :: "int option"
  dependencies :: "string list"
  result :: "string option"
  error_message :: "string option"
  created_by :: string
  last_updated :: timestamp

record agent =
  id_agent :: string
  name :: string
  nickname :: string
  title_agent :: string
  model :: string
  status_agent :: string
  max_concurrent_tasks :: int
  active_tasks :: int
  completed_tasks :: int
  failed_tasks :: int
  total_task_time :: int
  average_response_time :: real
  last_heartbeat :: "timestamp option"
  created_at :: timestamp
  updated_at :: timestamp

record db =
  agents :: "agent list"
  agent_tasks :: "agent_task list"

text \<open>The snapshot returned by \<^verbatim>\<open>get_agent_workload\<close> (dataclass \<^verbatim>\<open>AgentWorkload\<close>).\<close>

record agent_workload =
  agent_id_wl :: string
  agent_name :: string
  agent_nickname :: string
  current_tasks :: "agent_task list"
  max_concurrent :: int
  active_count :: nat
  completed_count :: int
  failed_count :: int
  total_task_time_wl :: int
  average_response_time_wl :: real
  status_wl :: string

text \<open>
  The object that \<^verbatim>\<open>get_next_task\<close> builds from the selected row. The \<^verbatim>\<open>SELECT\<close> has 17
  columns (\<^verbatim>\<open>row[0]\<close> to \<^verbatim>\<open>row[16]\<close>), but after \<^verbatim>\<open>priority=row[4]\<close> the constructor
  writes \<^verbatim>\<open>status='assigned'\<close> and goes on with \<^verbatim>\<open>progress=row[5]\<close>, so every later
  attribute holds the column one place to the left of its own. Each field below has the
  type of the value it really receives.
\<close>

record returned_task =
  id_r :: string
  agent_id_r :: string
  title_r :: string
  description_r :: string
  priority_r :: int
  status_r :: string
  progress_r :: string
  assigned_at_r :: real
  started_at_r :: timestamp
  completed_at_r :: "timestamp option"
  estimated_duration_r :: "timestamp option"
  actual_duration_r :: int
  dependencies_r :: "string list"
  result_r :: "string list"
  error_message_r :: "string option"
  created_by_r :: "string option"
  last_updated_r :: string

text \<open>The dictionary handed to \<^verbatim>\<open>add_agent\<close>; \<open>None\<close> is an absent key.\<close>

record agent_config =
  cfg_id :: string
  cfg_name :: "string option"
  cfg_nickname :: "string option"
  cfg_title :: "string option"
  cfg_model :: "string option"

text \<open>
  The exceptions the operations raise: \<^verbatim>\<open>ValueError\<close> of an unknown agent in
  \<^verbatim>\<open>get_agent_workload\<close>, \<^verbatim>\<open>ValueError\<close> of \<^verbatim>\<open>distribute_task\<close>, \<^verbatim>\<open>TypeError\<close> of
  subscripting the \<^verbatim>\<open>None\<close> that \<^verbatim>\<open>fetchone()\<close> returns for no row (and of
  \<^verbatim>\<open>json.loads\<close> on an integer), and \<^verbatim>\<open>sqlite3.IntegrityError\<close> of a duplicate primary key.
\<close>

datatype error =
    AgentNotFound string
  | NoSuitableAgent
  | TypeError
  | IntegrityError

definition MAX_CONCURRENT_TASKS_PER_AGENT :: int where
  "MAX_CONCURRENT_TASKS_PER_AGENT = 3"

definition empty_db :: db where
  "empty_db = \<lparr>agents = [], agent_tasks = []\<rparr>"

section \<open>Queries shared by the operations\<close>

text \<open>
  \<^verbatim>\<open>(b - a).seconds\<close> for two datetimes whose difference is \<open>d\<close> microseconds. A
  \<^verbatim>\<open>timedelta\<close> is normalised to days, seconds in \<open>[0, 86400)\<close> and microseconds in
  \<open>[0, 10^6)\<close>; \<^verbatim>\<open>.seconds\<close> is the middle component, not the total.
\<close>

definition td_seconds :: "int \<Rightarrow> int" where
  "td_seconds d = (d div 1000000) mod 86400"

definition is_active :: "agent_task \<Rightarrow> bool" where
  "is_active t = (status t = ''assigned'' \<or> status t = ''working'')"

definition is_terminal :: "agent_task \<Rightarrow> bool" where
  "is_terminal t = (status t = ''completed'' \<or> status t = ''failed'')"

text \<open>\<^verbatim>\<open>SELECT ... FROM agents WHERE id = ?\<close> followed by \<^verbatim>\<open>fetchone()\<close>.\<close>

definition agent_row :: "db \<Rightarrow> string \<Rightarrow> agent option" where
  "agent_row d aid = find (\<lambda>a. id_agent a = aid) (agents d)"

text \<open>\<^verbatim>\<open>SELECT ... FROM agent_tasks WHERE id = ?\<close> followed by \<^verbatim>\<open>fetchone()\<close>.\<close>

definition task_row :: "db \<Rightarrow> string \<Rightarrow> agent_task option" where
  "task_row d tid = find (\<lambda>t. id_task t = tid) (agent_tasks d)"

text \<open>
  \<^verbatim>\<open>ORDER BY priority, assigned_at\<close>. SQL leaves the order of rows with equal keys open;
  the model keeps them in table order.
\<close>

definition order_by_priority_assigned_at :: "agent_task list \<Rightarrow> agent_task list" where
  "order_by_priority_assigned_at ts = sort_key (\<lambda>t. (priority t, assigned_at t)) ts"

text \<open>
  \<^verbatim>\<open>SELECT COUNT(*) FROM agent_tasks WHERE agent_id = ? AND status IN ('assigned', 'working')\<close>
\<close>

definition count_active :: "db \<Rightarrow> string \<Rightarrow> nat" where
  "count_active d aid = length (filter (\<lambda>t. agent_id t = aid \<and> is_active t) (agent_tasks d))"

section \<open>\<^verbatim>\<open>AgentTaskDatabase\<close>\<close>

text \<open>
  \<^verbatim>\<open>add_agent\<close>: \<^verbatim>\<open>INSERT OR REPLACE INTO agents (id, name, nickname, title, model,
  max_concurrent_tasks)\<close>. On a primary-key conflict SQLite deletes the old row and inserts
  the new one, whose unlisted columns take the defaults of the schema.
\<close>

definition add_agent :: "db \<Rightarrow> timestamp \<Rightarrow> agent_config \<Rightarrow> db" where
  "add_agent d ts c =
     d\<lparr>agents := filter (\<lambda>a. id_agent a \<noteq> cfg_id c) (agents d) @
        [\<lparr>id_agent = cfg_id c,
          name = (case cfg_name c of None \<Rightarrow> cfg_id c | Some n \<Rightarrow> n),
          nickname = (case cfg_nickname c of None \<Rightarrow> '''' | Some n \<Rightarrow> n),
          title_agent = (case cfg_title c of None \<Rightarrow> '''' | Some n \<Rightarrow> n),
          model = (case cfg_model c of None \<Rightarrow> '''' | Some n \<Rightarrow> n),
          status_agent = ''available'',
          max_concurrent_tasks = MAX_CONCURRENT_TASKS_PER_AGENT,
          active_tasks = 0,
          completed_tasks = 0,
          failed_tasks = 0,
          total_task_time = 0,
          average_response_time = 0,
          last_heartbeat = None,
          created_at = ts,
          updated_at = ts\<rparr>]\<rparr>"

text \<open>
  \<^verbatim>\<open>create_task\<close>: the \<^verbatim>\<open>INSERT\<close> lists eleven columns; \<^verbatim>\<open>progress\<close>, \<^verbatim>\<open>started_at\<close>,
  \<^verbatim>\<open>completed_at\<close>, \<^verbatim>\<open>actual_duration\<close>, \<^verbatim>\<open>result\<close> and \<^verbatim>\<open>error_message\<close> take their
  defaults whatever the task object holds. Then the owning agent's heartbeat is touched.
  An id already in the table violates the primary key and nothing is written.
\<close>

definition create_task :: "db \<Rightarrow> timestamp \<Rightarrow> agent_task \<Rightarrow> error + (string \<times> db)" where
  "create_task d ts task =
     (if id_task task \<in> set (map id_task (agent_tasks d)) then Inl IntegrityError
      else Inr (id_task task,
        d\<lparr>agent_tasks := agent_tasks d @
             [\<lparr>id_task = id_task task,
               agent_id = agent_id task,
               title = title task,
               description = description task,
               priority = priority task,
               status = status task,
               progress = 0,
               assigned_at = assigned_at task,
               started_at = None,
               completed_at = None,
               estimated_duration = estimated_duration task,
               actual_duration = None,
               dependencies = dependencies task,
               result = None,
               error_message = None,
               created_by = created_by task,
               last_updated = last_updated task\<rparr>],
           agents := map (\<lambda>a. if id_agent a = agent_id task
                                then a\<lparr>last_heartbeat := Some ts\<rparr> else a) (agents d)\<rparr>))"

definition get_agent_tasks :: "db \<Rightarrow> string \<Rightarrow> agent_task list" where
  "get_agent_tasks d aid =
     order_by_priority_assigned_at (filter (\<lambda>t. agent_id t = aid) (agent_tasks d))"

definition get_agent_workload :: "db \<Rightarrow> timestamp \<Rightarrow> string \<Rightarrow> error + agent_workload" where
  "get_agent_workload d now aid =
     (case agent_row d aid of
        None \<Rightarrow> Inl (AgentNotFound aid)
      | Some r \<Rightarrow>
          let tasks = get_agent_tasks d aid;
              active = filter is_active tasks;
              st = (if int (length active) \<ge> max_concurrent_tasks r then ''overloaded''
                    else if length active > 0 then ''busy''
                    else if (case last_heartbeat r of
                               None \<Rightarrow> False
                             | Some hb \<Rightarrow> td_seconds (now - hb) > 60) then ''offline''
                    else ''available'')
          in Inr \<lparr>agent_id_wl = aid,
                  agent_name = name r,
                  agent_nickname = (if nickname r = [] then name r else nickname r),
                  current_tasks = active,
                  max_concurrent = max_concurrent_tasks r,
                  active_count = length active,
                  completed_count = completed_tasks r,
                  failed_count = failed_tasks r,
                  total_task_time_wl = total_task_time r,
                  average_response_time_wl = average_response_time r,
                  status_wl = st\<rparr>)"

text \<open>
  The \<^verbatim>\<open>SET\<close> clause that \<^verbatim>\<open>update_task_status\<close> assembles: status and
  \<^verbatim>\<open>last_updated\<close> always; progress and result when given; \<^verbatim>\<open>started_at\<close> whenever the
  new status is \<^verbatim>\<open>'working'\<close>; \<^verbatim>\<open>completed_at\<close> and \<^verbatim>\<open>actual_duration\<close> when it is
  terminal.
\<close>

definition set_clause ::
  "timestamp \<Rightarrow> string \<Rightarrow> real option \<Rightarrow> string option \<Rightarrow> int option \<Rightarrow> agent_task \<Rightarrow> agent_task" where
  "set_clause ts st prog res dur t =
     t\<lparr>status := st,
       last_updated := ts,
       progress := (case prog of None \<Rightarrow> progress t | Some p \<Rightarrow> p),
       result := (case res of None \<Rightarrow> result t | Some r \<Rightarrow> Some r),
       started_at := (if st = ''working'' then Some ts else started_at t),
       completed_at := (case dur of None \<Rightarrow> completed_at t | Some x \<Rightarrow> Some ts),
       actual_duration := (case dur of None \<Rightarrow> actual_duration t | Some x \<Rightarrow> Some x)\<rparr>"

text \<open>
  The statistics update of a terminal transition:
  \<^verbatim>\<open>SET {stats}_tasks = {stats}_tasks + 1, total_task_time = total_task_time + ?,
  updated_at = CURRENT_TIMESTAMP\<close>.
\<close>

definition update_stats :: "timestamp \<Rightarrow> string \<Rightarrow> int \<Rightarrow> agent \<Rightarrow> agent" where
  "update_stats ts st dur a =
     (if st = ''completed''
      then a\<lparr>completed_tasks := completed_tasks a + 1,
             total_task_time := total_task_time a + dur, updated_at := ts\<rparr>
      else a\<lparr>failed_tasks := failed_tasks a + 1,
             total_task_time := total_task_time a + dur, updated_at := ts\<rparr>)"

text \<open>
  \<^verbatim>\<open>update_task_status\<close>. For a terminal status the code first reads \<^verbatim>\<open>assigned_at\<close>
  with \<^verbatim>\<open>cursor.fetchone()[0]\<close>, which raises \<^verbatim>\<open>TypeError\<close> when the task does not exist;
  the agent whose id is the task's \<^verbatim>\<open>agent_id\<close> gets the statistics update. The final
  \<^verbatim>\<open>UPDATE agent_tasks ... WHERE id = ?\<close> has no condition on the current status.
\<close>

definition update_task_status ::
  "db \<Rightarrow> timestamp \<Rightarrow> timestamp \<Rightarrow> string \<Rightarrow> string \<Rightarrow> real option \<Rightarrow> string option \<Rightarrow> error + db" where
  "update_task_status d ts now tid st prog res =
     (if st = ''completed'' \<or> st = ''failed'' then
        (case task_row d tid of
           None \<Rightarrow> Inl TypeError
         | Some r \<Rightarrow>
             let duration = td_seconds (now - assigned_at r)
             in Inr (d\<lparr>agents := map (\<lambda>a. if id_agent a = agent_id r
                                           then update_stats ts st duration a else a) (agents d),
                       agent_tasks := map (\<lambda>t. if id_task t = tid
                                           then set_clause ts st prog res (Some duration) t else t)
                                        (agent_tasks d)\<rparr>))
      else Inr (d\<lparr>agent_tasks := map (\<lambda>t. if id_task t = tid
                                      then set_clause ts st prog res None t else t)
                                   (agent_tasks d)\<rparr>))"

text \<open>The object built at the end of \<^verbatim>\<open>get_next_task\<close>, with its shifted columns.\<close>

definition returned :: "agent_task \<Rightarrow> returned_task" where
  "returned r =
     \<lparr>id_r = id_task r,
      agent_id_r = agent_id r,
      title_r = title r,
      description_r = description r,
      priority_r = priority r,
      status_r = ''assigned'',
      progress_r = status r,
      assigned_at_r = progress r,
      started_at_r = assigned_at r,
      completed_at_r = started_at r,
      estimated_duration_r = completed_at r,
      actual_duration_r = estimated_duration r,
      dependencies_r = [],
      result_r = dependencies r,
      error_message_r = result r,
      created_by_r = error_message r,
      last_updated_r = created_by r\<rparr>"

text \<open>
  \<^verbatim>\<open>ORDER BY priority, assigned_at LIMIT 1\<close> over the agent's pending tasks.
\<close>

definition next_pending :: "db \<Rightarrow> string \<Rightarrow> agent_task option" where
  "next_pending d aid =
     (case order_by_priority_assigned_at
             (filter (\<lambda>t. agent_id t = aid \<and> status t = ''pending'') (agent_tasks d)) of
        [] \<Rightarrow> None
      | r # rest \<Rightarrow> Some r)"

text \<open>
  \<^verbatim>\<open>get_next_task\<close> returns the outcome together with the store it leaves behind. The
  two early \<^verbatim>\<open>return None\<close> and the \<^verbatim>\<open>TypeError\<close> of
  \<^verbatim>\<open>cursor.fetchone()[0]\<close> for an unknown agent happen before any write. The return
  object is built after \<^verbatim>\<open>conn.commit()\<close>; there
  \<^verbatim>\<open>json.loads(row[11]) if row[11] else []\<close> reads the \<^verbatim>\<open>actual_duration\<close> column, and
  \<^verbatim>\<open>json.loads\<close> of a non-zero integer raises \<^verbatim>\<open>TypeError\<close> with the writes already
  committed.
\<close>

definition get_next_task ::
  "db \<Rightarrow> timestamp \<Rightarrow> string \<Rightarrow> (error + returned_task option) \<times> db" where
  "get_next_task d ts aid =
     (let active_count = count_active d aid in
      case agent_row d aid of
        None \<Rightarrow> (Inl TypeError, d)
      | Some a \<Rightarrow>
          if int active_count \<ge> max_concurrent_tasks a then (Inr None, d)
          else
            (case next_pending d aid of
               None \<Rightarrow> (Inr None, d)
             | Some r \<Rightarrow>
                 let d' = d\<lparr>agent_tasks := map (\<lambda>t. if id_task t = id_task r
                                                  then t\<lparr>status := ''assigned'', last_updated := ts\<rparr>
                                                  else t) (agent_tasks d),
                            agents := map (\<lambda>x. if id_agent x = aid
                                             then x\<lparr>active_tasks := int active_count + 1,
                                                    updated_at := ts\<rparr>
                                             else x) (agents d)\<rparr>
                 in (case actual_duration r of
                       None \<Rightarrow> (Inr (Some (returned r)), d')
                     | Some n \<Rightarrow> if n = 0 then (Inr (Some (returned r)), d')
                                else (Inl TypeError, d'))))"

section \<open>\<^verbatim>\<open>TaskDistributor\<close>\<close>

definition task_mapping :: "string \<Rightarrow> string list" where
  "task_mapping task_type =
     (if task_type = ''system_design'' then [''cto-leader'', ''sa-architect'', ''softarch-lead'']
      else if task_type = ''business_analysis'' then [''ba-strategist'', ''uiux-researcher'', ''cto-leader'']
      else if task_type = ''development''
        then [''leaddeveloper-tech'', ''seniordeveloper-code'', ''juniorddeveloper-learning'']
      else if task_type = ''testing'' then [''qa-quality'', ''seniordeveloper-code'']
      else if task_type = ''infrastructure'' then [''sysadmin-infrastructure'', ''devops-automation'', ''dba-data'']
      else if task_type = ''performance'' then [''dba-data'', ''devops-automation'', ''seniordeveloper-code'']
      else if task_type = ''ui_ux'' then [''uiux-researcher'', ''ba-strategist'']
      else if task_type = ''general'' then [''team-coordinator'']
      else [''team-coordinator''])"

definition estimate_task_duration :: "string \<Rightarrow> int" where
  "estimate_task_duration task_type =
     (if task_type = ''system_design'' then 600
      else if task_type = ''business_analysis'' then 300
      else if task_type = ''development'' then 900
      else if task_type = ''testing'' then 180
      else if task_type = ''infrastructure'' then 240
      else if task_type = ''performance'' then 360
      else if task_type = ''ui_ux'' then 420
      else if task_type = ''general'' then 60
      else 300)"

text \<open>
  The loop of \<^verbatim>\<open>find_best_agent\<close> over the candidates, carrying \<^verbatim>\<open>best_agent\<close> and
  \<^verbatim>\<open>min_workload\<close> (which starts at \<^verbatim>\<open>float('inf')\<close>). The \<^verbatim>\<open>ValueError\<close> of an unknown
  agent is caught and the loop continues.
\<close>

fun find_best_loop ::
  "db \<Rightarrow> timestamp \<Rightarrow> string list \<Rightarrow> string option \<Rightarrow> enat \<Rightarrow> string option" where
  "find_best_loop d now [] best_agent min_workload = best_agent"
| "find_best_loop d now (aid # rest) best_agent min_workload =
     (case get_agent_workload d now aid of
        Inl e \<Rightarrow> find_best_loop d now rest best_agent min_workload
      | Inr workload \<Rightarrow>
          if int (active_count workload) < max_concurrent workload then
            (if enat (active_count workload) < min_workload
             then find_best_loop d now rest (Some aid) (enat (active_count workload))
             else find_best_loop d now rest best_agent min_workload)
          else find_best_loop d now rest best_agent min_workload)"

definition find_best_agent :: "db \<Rightarrow> timestamp \<Rightarrow> string \<Rightarrow> string option" where
  "find_best_agent d now task_type = find_best_loop d now (task_mapping task_type) None \<infinity>"

text \<open>\<^verbatim>\<open>notify_agent\<close> marks the new task assigned through \<^verbatim>\<open>update_task_status\<close>.\<close>

definition notify_agent :: "db \<Rightarrow> timestamp \<Rightarrow> timestamp \<Rightarrow> string \<Rightarrow> string \<Rightarrow> error + db" where
  "notify_agent d ts now aid tid = update_task_status d ts now tid ''assigned'' None None"

text \<open>
  \<^verbatim>\<open>distribute_task\<close>. \<open>uuid\<close> is the value of \<^verbatim>\<open>str(uuid.uuid4())\<close>. An
  \<^verbatim>\<open>assigned_to\<close> that is \<^verbatim>\<open>None\<close> or the empty string is falsy and sends the call to
  \<^verbatim>\<open>find_best_agent\<close>; an agent id that is \<^verbatim>\<open>None\<close> or empty raises the
  \<^verbatim>\<open>ValueError\<close>. The clock readings made during one call are taken as one reading
  \<open>now\<close> and one reading \<open>ts\<close>.
\<close>

definition new_task ::
  "string \<Rightarrow> string \<Rightarrow> timestamp \<Rightarrow> string \<Rightarrow> string \<Rightarrow> string \<Rightarrow> int \<Rightarrow> agent_task" where
  "new_task uuid aid now task_type ttl descr prio =
     \<lparr>id_task = uuid, agent_id = aid, title = ttl, description = descr,
      priority = prio, status = ''pending'', progress = 0,
      assigned_at = now, started_at = None, completed_at = None,
      estimated_duration = estimate_task_duration task_type,
      actual_duration = None, dependencies = [], result = None,
      error_message = None, created_by = ''system'', last_updated = now\<rparr>"

definition distribute_task ::
  "db \<Rightarrow> string \<Rightarrow> timestamp \<Rightarrow> timestamp \<Rightarrow> string \<Rightarrow> string \<Rightarrow> string \<Rightarrow> int \<Rightarrow> string option
     \<Rightarrow> error + (string \<times> db)" where
  "distribute_task d uuid ts now task_type ttl descr prio assigned_to =
     (let chosen = (case assigned_to of
                      None \<Rightarrow> find_best_agent d now task_type
                    | Some a \<Rightarrow> if a = [] then find_best_agent d now task_type else Some a)
      in case chosen of
           None \<Rightarrow> Inl NoSuitableAgent
         | Some aid \<Rightarrow>
             if aid = [] then Inl NoSuitableAgent
             else
               (case create_task d ts (new_task uuid aid now task_type ttl descr prio) of
                  Inl e \<Rightarrow> Inl e
                | Inr (tid, d1) \<Rightarrow>
                    (case notify_agent d1 ts now aid tid of
                       Inl e \<Rightarrow> Inl e
                     | Inr d2 \<Rightarrow> Inr (tid, d2))))"

section \<open>Sequences of store operations\<close>

text \<open>
  The calls a client of the store can make, each with the clock readings and generated
  ids it consumes. \<open>apply_op\<close> gives the store a call leaves behind: an exception raised
  before the commit leaves it as it was.
\<close>

datatype store_op =
    AddAgent timestamp agent_config
  | CreateTask timestamp agent_task
  | UpdateTaskStatus timestamp timestamp string string "real option" "string option"
  | GetNextTask timestamp string
  | DistributeTask string timestamp timestamp string string string int "string option"

fun apply_op :: "db \<Rightarrow> store_op \<Rightarrow> db" where
  "apply_op d (AddAgent ts c) = add_agent d ts c"
| "apply_op d (CreateTask ts task) =
     (case create_task d ts task of Inl e \<Rightarrow> d | Inr (tid, d') \<Rightarrow> d')"
| "apply_op d (UpdateTaskStatus ts now tid st prog res) =
     (case update_task_status d ts now tid st prog res of Inl e \<Rightarrow> d | Inr d' \<Rightarrow> d')"
| "apply_op d (GetNextTask ts aid) = snd (get_next_task d ts aid)"
| "apply_op d (DistributeTask uuid ts now task_type ttl descr prio assigned_to) =
     (case distribute_task d uuid ts now task_type ttl descr prio assigned_to of
        Inl e \<Rightarrow> d | Inr (tid, d') \<Rightarrow> d')"

definition run :: "db \<Rightarrow> store_op list \<Rightarrow> db" where
  "run d ops = foldl apply_op d ops"

text \<open>Whether a call is an \<^verbatim>\<open>update_task_status\<close> addressed to the task \<open>tid\<close>.\<close>

fun updates_task :: "string \<Rightarrow> store_op \<Rightarrow> bool" where
  "updates_task tid (UpdateTaskStatus ts now tid' st prog res) = (tid' = tid)"
| "updates_task tid other = False"

text \<open>The primary keys: no two rows of a table share an id.\<close>

definition wf_db :: "db \<Rightarrow> bool" where
  "wf_db d = (distinct (map id_task (agent_tasks d)) \<and> distinct (map id_agent (agents d)))"

text \<open>
  What \<^verbatim>\<open>find_best_agent\<close> reads off a candidate's workload: whether the agent is known
  and below its limit, and how many active tasks it has.
\<close>

definition can_take :: "db \<Rightarrow> timestamp \<Rightarrow> string \<Rightarrow> bool" where
  "can_take d now aid =
     (case get_agent_workload d now aid of
        Inl e \<Rightarrow> False
      | Inr w \<Rightarrow> int (active_count w) < max_concurrent w)"

definition workload_of :: "db \<Rightarrow> timestamp \<Rightarrow> string \<Rightarrow> nat" where
  "workload_of d now aid =
     (case get_agent_workload d now aid of Inl e \<Rightarrow> 0 | Inr w \<Rightarrow> active_count w)"

section \<open>Example stores\<close>

definition qa_config :: agent_config where
  "qa_config = \<lparr>cfg_id = ''qa-quality'', cfg_name = Some ''QA'', cfg_nickname = None,
                 cfg_title = None, cfg_model = None\<rparr>"

definition senior_config :: agent_config where
  "senior_config = \<lparr>cfg_id = ''seniordeveloper-code'', cfg_name = None, cfg_nickname = None,
                     cfg_title = None, cfg_model = None\<rparr>"

text \<open>
  Two testers registered; two tasks handed to \<^verbatim>\<open>qa-quality\<close> by name, none to
  \<^verbatim>\<open>seniordeveloper-code\<close>.
\<close>

definition two_testers_db :: db where
  "two_testers_db = run empty_db
     [AddAgent 0 qa_config, AddAgent 0 senior_config,
      DistributeTask ''t1'' 1 1 ''testing'' ''first'' '''' 2 (Some ''qa-quality''),
      DistributeTask ''t2'' 2 2 ''testing'' ''second'' '''' 2 (Some ''qa-quality'')]"

text \<open>
  The life of one task of \<^verbatim>\<open>qa-quality\<close>, step by step. Times are microseconds: the
  task is created at second 1, fetched at second 2, started at second 3 and completed at
  second 5.
\<close>

definition first_task :: agent_task where
  "first_task = new_task ''t1'' ''qa-quality'' 1000000 ''testing'' ''first'' '''' 1"

definition second_task :: agent_task where
  "second_task = new_task ''t2'' ''qa-quality'' 6000000 ''testing'' ''second'' '''' 1"

definition pending_db :: db where
  "pending_db = run empty_db [AddAgent 0 qa_config, CreateTask 1000000 first_task]"

definition working_db :: db where
  "working_db = run pending_db
     [GetNextTask 2000000 ''qa-quality'',
      UpdateTaskStatus 3000000 3000000 ''t1'' ''working'' (Some 10) None]"

definition completed_db :: db where
  "completed_db = run working_db
     [UpdateTaskStatus 5000000 5000000 ''t1'' ''completed'' (Some 100) (Some ''done'')]"

text \<open>After the completion a second task is created for the same agent.\<close>

definition refill_db :: db where
  "refill_db = run completed_db [CreateTask 6000000 second_task]"

text \<open>After the completion a client sets the task back to \<^verbatim>\<open>'pending'\<close>.\<close>

definition requeued_db :: db where
  "requeued_db = run completed_db
     [UpdateTaskStatus 7000000 7000000 ''t1'' ''pending'' None None]"

text \<open>The same task completed one day and two minutes after its creation.\<close>

definition day_old_db :: db where
  "day_old_db = run pending_db
     [GetNextTask 2000000 ''qa-quality'',
      UpdateTaskStatus 86521000000 86521000000 ''t1'' ''completed'' (Some 100) (Some ''done'')]"

text \<open>One task handed to \<^verbatim>\<open>qa-quality\<close> by name through \<^verbatim>\<open>distribute_task\<close>.\<close>

definition notified_db :: db where
  "notified_db = run empty_db
     [AddAgent 0 qa_config,
      DistributeTask ''t1'' 1000000 1000000 ''testing'' ''first'' '''' 1 (Some ''qa-quality'')]"

text \<open>
  \<^verbatim>\<open>qa-quality\<close> with three active tasks, its limit, and a fourth task pending.
\<close>

definition full_db :: db where
  "full_db = run two_testers_db
     [DistributeTask ''t3'' 3000000 3000000 ''testing'' ''third'' '''' 2 (Some ''qa-quality''),
      CreateTask 4000000 (new_task ''t4'' ''qa-quality'' 4000000 ''testing'' ''fourth'' '''' 1)]"

text \<open>
  Calls made after the first task is completed, none of them an \<^verbatim>\<open>update_task_status\<close> of
  that task.
\<close>

definition later_ops :: "store_op list" where
  "later_ops =
     [CreateTask 6000000 second_task,
      GetNextTask 7000000 ''qa-quality'',
      UpdateTaskStatus 8000000 8000000 ''t2'' ''working'' (Some 10) None,
      UpdateTaskStatus 9000000 9000000 ''t2'' ''failed'' None (Some ''Task failed''),
      DistributeTask ''t1'' 9500000 9500000 ''testing'' ''again'' '''' 1 None,
      AddAgent 9900000 senior_config]"

section \<open>Lookups and counts\<close>

lemma find_distinct_key:
  "distinct (map k xs) \<Longrightarrow> x \<in> set xs \<Longrightarrow> find (\<lambda>y. k y = k x) xs = Some x"
  by (induction xs) (auto simp: rev_image_eqI)

text \<open>
  The length of the active list that \<^verbatim>\<open>get_agent_workload\<close> filters out of the sorted
  tasks of an agent is the \<^verbatim>\<open>COUNT(*)\<close> of \<^verbatim>\<open>get_next_task\<close>.
\<close>

lemma count_active_workload:
  "length (filter is_active (get_agent_tasks d aid)) = count_active d aid"
  by (simp add: get_agent_tasks_def order_by_priority_assigned_at_def count_active_def
        filter_sort)

lemma get_agent_workload_known:
  "agent_row d aid = Some a \<Longrightarrow>
   \<exists>w. get_agent_workload d now aid = Inr w \<and> active_count w = count_active d aid
        \<and> max_concurrent w = max_concurrent_tasks a"
  by (simp add: get_agent_workload_def Let_def count_active_workload)

lemma can_take_iff:
  "can_take d now aid \<longleftrightarrow>
   (\<exists>a. agent_row d aid = Some a \<and> int (count_active d aid) < max_concurrent_tasks a)"
  by (cases "agent_row d aid")
     (auto simp: can_take_def get_agent_workload_def Let_def count_active_workload)

lemma workload_of_known:
  "agent_row d aid = Some a \<Longrightarrow> workload_of d now aid = count_active d aid"
  by (simp add: workload_of_def get_agent_workload_def Let_def count_active_workload)

section \<open>The assignment policy\<close>

lemma find_best_loop_step:
  "find_best_loop d now (c # cs) best mw =
     (if can_take d now c \<and> enat (workload_of d now c) < mw
      then find_best_loop d now cs (Some c) (enat (workload_of d now c))
      else find_best_loop d now cs best mw)"
  by (auto simp: can_take_def workload_of_def split: sum.splits)

lemma find_best_loop_None:
  "find_best_loop d now cs best mw = None \<longleftrightarrow>
   best = None \<and> (\<forall>c\<in>set cs. can_take d now c \<longrightarrow> mw \<le> enat (workload_of d now c))"
proof (induction cs arbitrary: best mw)
  case Nil
  then show ?case by simp
next
  case (Cons c cs)
  show ?case
    unfolding find_best_loop_step using Cons.IH
    by (auto simp del: find_best_loop.simps)
qed

text \<open>
  The invariant of the loop: a result is either the incoming \<open>best\<close>, which no remaining
  eligible candidate undercuts, or a candidate of the remaining list that is strictly
  below the incoming minimum and below every eligible candidate before it, and not above
  any eligible candidate after it.
\<close>

lemma find_best_loop_Some:
  "find_best_loop d now cs best mw = Some a \<Longrightarrow>
     (best = Some a \<and> (\<forall>c\<in>set cs. can_take d now c \<longrightarrow> mw \<le> enat (workload_of d now c))) \<or>
     (\<exists>pre post. cs = pre @ a # post \<and> can_take d now a \<and> enat (workload_of d now a) < mw \<and>
        (\<forall>c\<in>set pre. can_take d now c \<longrightarrow> workload_of d now a < workload_of d now c) \<and>
        (\<forall>c\<in>set post. can_take d now c \<longrightarrow> workload_of d now a \<le> workload_of d now c))"
proof (induction cs arbitrary: best mw)
  case Nil
  then show ?case by simp
next
  case (Cons c cs)
  show ?case
  proof (cases "can_take d now c \<and> enat (workload_of d now c) < mw")
    case True
    with Cons.prems
    have go: "find_best_loop d now cs (Some c) (enat (workload_of d now c)) = Some a"
      by (simp add: find_best_loop_step del: find_best_loop.simps)
    from Cons.IH[OF go] show ?thesis
    proof
      assume h: "Some c = Some a \<and>
        (\<forall>x\<in>set cs. can_take d now x \<longrightarrow>
           enat (workload_of d now c) \<le> enat (workload_of d now x))"
      then have "c # cs = [] @ a # cs" by simp
      with h True show ?thesis
        by (intro disjI2 exI[of _ "[]"] exI[of _ cs]) auto
    next
      assume "\<exists>pre post. cs = pre @ a # post \<and> can_take d now a \<and>
        enat (workload_of d now a) < enat (workload_of d now c) \<and>
        (\<forall>c\<in>set pre. can_take d now c \<longrightarrow> workload_of d now a < workload_of d now c) \<and>
        (\<forall>c\<in>set post. can_take d now c \<longrightarrow> workload_of d now a \<le> workload_of d now c)"
      then obtain pre post where h: "cs = pre @ a # post" "can_take d now a"
        "workload_of d now a < workload_of d now c"
        "\<forall>c\<in>set pre. can_take d now c \<longrightarrow> workload_of d now a < workload_of d now c"
        "\<forall>c\<in>set post. can_take d now c \<longrightarrow> workload_of d now a \<le> workload_of d now c"
        by auto
      from h(3) True have "enat (workload_of d now a) < mw"
        by (meson enat_ord_simps(2) less_trans)
      with h show ?thesis
        by (intro disjI2 exI[of _ "c # pre"] exI[of _ post]) auto
    qed
  next
    case False
    with Cons.prems have go: "find_best_loop d now cs best mw = Some a"
      by (simp add: find_best_loop_step del: find_best_loop.simps)
    from Cons.IH[OF go] show ?thesis
    proof
      assume "best = Some a \<and>
        (\<forall>c\<in>set cs. can_take d now c \<longrightarrow> mw \<le> enat (workload_of d now c))"
      with False show ?thesis by auto
    next
      assume "\<exists>pre post. cs = pre @ a # post \<and> can_take d now a \<and>
        enat (workload_of d now a) < mw \<and>
        (\<forall>c\<in>set pre. can_take d now c \<longrightarrow> workload_of d now a < workload_of d now c) \<and>
        (\<forall>c\<in>set post. can_take d now c \<longrightarrow> workload_of d now a \<le> workload_of d now c)"
      then obtain pre post where h: "cs = pre @ a # post" "can_take d now a"
        "enat (workload_of d now a) < mw"
        "\<forall>c\<in>set pre. can_take d now c \<longrightarrow> workload_of d now a < workload_of d now c"
        "\<forall>c\<in>set post. can_take d now c \<longrightarrow> workload_of d now a \<le> workload_of d now c"
        by auto
      have "can_take d now c \<Longrightarrow> workload_of d now a < workload_of d now c"
        using False h(3) by (metis enat_ord_simps(2) not_less order_less_le_trans)
      with h show ?thesis
        by (intro disjI2 exI[of _ "c # pre"] exI[of _ post]) auto
    qed
  qed
qed

lemma find_best_agent_None:
  "find_best_agent d now tt = None \<longleftrightarrow> (\<forall>c\<in>set (task_mapping tt). \<not> can_take d now c)"
  by (simp add: find_best_agent_def find_best_loop_None)

lemma find_best_agent_Some:
  assumes "find_best_agent d now tt = Some a"
  shows "\<exists>pre post. task_mapping tt = pre @ a # post \<and> can_take d now a \<and>
         (\<forall>c\<in>set pre. can_take d now c \<longrightarrow> workload_of d now a < workload_of d now c) \<and>
         (\<forall>c\<in>set post. can_take d now c \<longrightarrow> workload_of d now a \<le> workload_of d now c)"
  using find_best_loop_Some[OF assms[unfolded find_best_agent_def]] by auto

lemma distribute_task_no_agent:
  assumes "find_best_agent d now tt = None"
  shows "distribute_task d uuid ts now tt ttl descr prio None = Inl NoSuitableAgent"
  using assms by (simp add: distribute_task_def)

text \<open>
  Claim C4. For every task type, \<^verbatim>\<open>find_best_agent\<close> returns a candidate \<open>a\<close> of the
  mapped list that is known to the store and below its limit (\<open>can_take\<close>), whose number
  of active tasks is strictly smaller than that of every eligible candidate listed before
  it and not larger than that of any eligible candidate listed after it: the first
  candidate with the fewest active tasks. Unknown and full candidates play no part. Some
  candidate is returned whenever one is eligible; when none is, the result is \<^verbatim>\<open>None\<close>
  and \<^verbatim>\<open>distribute_task\<close> without an explicit agent raises the no-suitable-agent error and
  returns no store, so no task is created. The last two conjuncts read \<open>can_take\<close> and
  \<open>workload_of\<close> off the tables: an id without a row can never take a task, and an agent
  with a row can take one exactly when its live count of assigned and working tasks is
  below its \<^verbatim>\<open>max_concurrent_tasks\<close>, that count being its workload.
\<close>

theorem find_best_agent_policy:
  "(\<forall>a. find_best_agent d now tt = Some a \<longrightarrow>
      (\<exists>pre post. task_mapping tt = pre @ a # post \<and> can_take d now a \<and>
         (\<forall>c\<in>set pre. can_take d now c \<longrightarrow> workload_of d now a < workload_of d now c) \<and>
         (\<forall>c\<in>set post. can_take d now c \<longrightarrow> workload_of d now a \<le> workload_of d now c))) \<and>
   ((\<exists>c\<in>set (task_mapping tt). can_take d now c) \<longrightarrow> (\<exists>a. find_best_agent d now tt = Some a)) \<and>
   ((\<forall>c\<in>set (task_mapping tt). \<not> can_take d now c) \<longrightarrow>
      find_best_agent d now tt = None \<and>
      distribute_task d uuid ts now tt ttl descr prio None = Inl NoSuitableAgent) \<and>
   (\<forall>c. agent_row d c = None \<longrightarrow> \<not> can_take d now c) \<and>
   (\<forall>c r. agent_row d c = Some r \<longrightarrow>
      (can_take d now c \<longleftrightarrow> int (count_active d c) < max_concurrent_tasks r) \<and>
      workload_of d now c = count_active d c)"
proof (intro conjI allI impI)
  fix a assume "find_best_agent d now tt = Some a"
  then show "\<exists>pre post. task_mapping tt = pre @ a # post \<and> can_take d now a \<and>
         (\<forall>c\<in>set pre. can_take d now c \<longrightarrow> workload_of d now a < workload_of d now c) \<and>
         (\<forall>c\<in>set post. can_take d now c \<longrightarrow> workload_of d now a \<le> workload_of d now c)"
    by (rule find_best_agent_Some)
next
  assume "\<exists>c\<in>set (task_mapping tt). can_take d now c"
  then have "find_best_agent d now tt \<noteq> None"
    by (simp add: find_best_agent_None)
  then show "\<exists>a. find_best_agent d now tt = Some a" by auto
next
  assume "\<forall>c\<in>set (task_mapping tt). \<not> can_take d now c"
  then show n: "find_best_agent d now tt = None"
    by (simp add: find_best_agent_None)
  then show "distribute_task d uuid ts now tt ttl descr prio None = Inl NoSuitableAgent"
    by (rule distribute_task_no_agent)
next
  fix c assume "agent_row d c = None"
  then show "\<not> can_take d now c" by (simp add: can_take_iff)
next
  fix c r assume "agent_row d c = Some r"
  then show "can_take d now c \<longleftrightarrow> int (count_active d c) < max_concurrent_tasks r"
    by (simp add: can_take_iff)
next
  fix c r assume "agent_row d c = Some r"
  then show "workload_of d now c = count_active d c" by (rule workload_of_known)
qed

theorem find_best_agent_policy_witness:
  "find_best_agent two_testers_db 5 ''testing'' = Some ''seniordeveloper-code'' \<and>
   workload_of two_testers_db 5 ''qa-quality'' = 2 \<and>
   workload_of two_testers_db 5 ''seniordeveloper-code'' = 0 \<and>
   (\<exists>pre post. task_mapping ''testing'' = pre @ ''seniordeveloper-code'' # post \<and>
      can_take two_testers_db 5 ''seniordeveloper-code'' \<and>
      (\<forall>c\<in>set pre. can_take two_testers_db 5 c \<longrightarrow>
         workload_of two_testers_db 5 ''seniordeveloper-code'' < workload_of two_testers_db 5 c) \<and>
      (\<forall>c\<in>set post. can_take two_testers_db 5 c \<longrightarrow>
         workload_of two_testers_db 5 ''seniordeveloper-code'' \<le> workload_of two_testers_db 5 c)) \<and>
   find_best_agent empty_db 0 ''general'' = None \<and>
   distribute_task empty_db ''u1'' 0 0 ''general'' ''title'' '''' 2 None = Inl NoSuitableAgent"
proof -
  have a: "find_best_agent two_testers_db 5 ''testing'' = Some ''seniordeveloper-code''"
    by code_simp
  have w: "workload_of two_testers_db 5 ''qa-quality'' = 2"
    "workload_of two_testers_db 5 ''seniordeveloper-code'' = 0"
    by code_simp+
  have n: "\<forall>c\<in>set (task_mapping ''general''). \<not> can_take empty_db 0 c"
    by (simp add: task_mapping_def can_take_iff agent_row_def empty_db_def)
  from a w n
    find_best_agent_policy[of two_testers_db 5 "''testing''"]
    find_best_agent_policy[of empty_db 0 "''general''" "''u1''" 0 "''title''" "''''" 2]
  show ?thesis by blast
qed

section \<open>The pending task that is selected\<close>

lemma sort_key_empty_iff: "sort_key f xs = [] \<longleftrightarrow> xs = []"
  by (metis length_sort length_0_conv)

lemma next_pending_None:
  "next_pending d aid = None \<longleftrightarrow>
   filter (\<lambda>t. agent_id t = aid \<and> status t = ''pending'') (agent_tasks d) = []"
  by (cases "sort_key (\<lambda>t. (priority t, assigned_at t))
               (filter (\<lambda>t. agent_id t = aid \<and> status t = ''pending'') (agent_tasks d))")
     (auto simp: next_pending_def order_by_priority_assigned_at_def sort_key_empty_iff)

lemma next_pending_Some:
  assumes "next_pending d aid = Some r"
  shows "r \<in> set (agent_tasks d)" "agent_id r = aid" "status r = ''pending''"
    "\<forall>t\<in>set (agent_tasks d). agent_id t = aid \<and> status t = ''pending'' \<longrightarrow>
       priority r < priority t \<or> (priority r = priority t \<and> assigned_at r \<le> assigned_at t)"
proof -
  define xs where "xs = filter (\<lambda>t. agent_id t = aid \<and> status t = ''pending'') (agent_tasks d)"
  define f where "f = (\<lambda>t::agent_task. (priority t, assigned_at t))"
  from assms obtain rest where s: "sort_key f xs = r # rest"
    by (auto simp: next_pending_def order_by_priority_assigned_at_def xs_def f_def
        split: list.splits)
  have "set (sort_key f xs) = set xs" by simp
  with s have rin: "r \<in> set xs" by auto
  then show "r \<in> set (agent_tasks d)" "agent_id r = aid" "status r = ''pending''"
    by (auto simp: xs_def)
  have "sorted (map f (sort_key f xs))" by (rule sorted_sort_key)
  with s have le: "\<forall>y\<in>set rest. f r \<le> f y" by simp
  have "\<forall>t\<in>set xs. f r \<le> f t"
  proof
    fix t assume "t \<in> set xs"
    then have "t \<in> set (r # rest)" using s by (metis set_sort)
    with le show "f r \<le> f t" by auto
  qed
  then show "\<forall>t\<in>set (agent_tasks d). agent_id t = aid \<and> status t = ''pending'' \<longrightarrow>
       priority r < priority t \<or> (priority r = priority t \<and> assigned_at r \<le> assigned_at t)"
    by (auto simp: xs_def f_def less_eq_prod_def)
qed

section \<open>\<^verbatim>\<open>get_next_task\<close> for an unknown agent\<close>

text \<open>
  Claim C10. For an agent id with no row in \<^verbatim>\<open>agents\<close>, \<^verbatim>\<open>get_next_task\<close> raises: the
  subscript of the missing \<^verbatim>\<open>max_concurrent_tasks\<close> row is a \<^verbatim>\<open>TypeError\<close>, and nothing
  is written. Whenever the call does return \<^verbatim>\<open>None\<close>, the agent is known and is either at
  capacity or without a pending task.
\<close>

theorem get_next_task_unknown_agent:
  "(aid \<notin> id_agent ` set (agents d) \<longrightarrow> get_next_task d ts aid = (Inl TypeError, d)) \<and>
   (fst (get_next_task d ts aid) = Inr None \<longrightarrow>
      (\<exists>a. agent_row d aid = Some a \<and>
         (max_concurrent_tasks a \<le> int (count_active d aid) \<or>
          filter (\<lambda>t. agent_id t = aid \<and> status t = ''pending'') (agent_tasks d) = [])))"
proof (intro conjI impI)
  assume "aid \<notin> id_agent ` set (agents d)"
  then have "agent_row d aid = None"
    by (auto simp: agent_row_def find_None_iff)
  then show "get_next_task d ts aid = (Inl TypeError, d)"
    by (simp add: get_next_task_def)
next
  assume r: "fst (get_next_task d ts aid) = Inr None"
  show "\<exists>a. agent_row d aid = Some a \<and>
         (max_concurrent_tasks a \<le> int (count_active d aid) \<or>
          filter (\<lambda>t. agent_id t = aid \<and> status t = ''pending'') (agent_tasks d) = [])"
  proof (cases "agent_row d aid")
    case None
    with r show ?thesis by (simp add: get_next_task_def)
  next
    case (Some a)
    with r show ?thesis
      by (auto simp: get_next_task_def Let_def next_pending_None[symmetric]
          split: if_splits option.splits)
  qed
qed

theorem get_next_task_unknown_agent_witness:
  "''nobody'' \<notin> id_agent ` set (agents two_testers_db) \<and>
   get_next_task two_testers_db 7 ''nobody'' = (Inl TypeError, two_testers_db)"
proof -
  have "''nobody'' \<notin> id_agent ` set (agents two_testers_db)"
    by code_simp
  with get_next_task_unknown_agent[of "''nobody''" two_testers_db 7]
  show ?thesis by blast
qed

section \<open>Updates of the rows with one id\<close>

text \<open>
  Every \<^verbatim>\<open>UPDATE ... WHERE id = ?\<close> maps a function that keeps the id over the rows with
  that id.
\<close>

lemma find_map_other:
  assumes "\<And>x. k (g x) = k x" "tid \<noteq> key"
  shows "find (\<lambda>t. k t = tid) (map (\<lambda>t. if k t = key then g t else t) xs)
         = find (\<lambda>t. k t = tid) xs"
  using assms by (induction xs) auto

lemma find_map_same:
  assumes "\<And>x. k (g x) = k x"
  shows "find (\<lambda>t. k t = key) (map (\<lambda>t. if k t = key then g t else t) xs)
         = map_option g (find (\<lambda>t. k t = key) xs)"
  using assms by (induction xs) auto

lemma map_other_id:
  "\<forall>t\<in>set xs. k t \<noteq> key \<Longrightarrow> map (\<lambda>t. if k t = key then g t else t) xs = xs"
  by (induction xs) auto

lemma map_key_update:
  "(\<And>x. k (g x) = k x) \<Longrightarrow> map k (map (\<lambda>t. if k t = key then g t else t) xs) = map k xs"
  by (induction xs) auto

lemma kept_by_update:
  "r \<in> set xs \<Longrightarrow> k r \<noteq> key \<Longrightarrow> r \<in> set (map (\<lambda>t. if k t = key then g t else t) xs)"
  by (induction xs) auto

lemma find_append_fresh:
  "\<forall>x\<in>set xs. \<not> P x \<Longrightarrow> P y \<Longrightarrow> find P (xs @ [y]) = Some y"
  by (induction xs) auto

text \<open>
  With unique ids, updating the row \<open>r\<close> from outside a class \<open>P\<close> into it raises the
  number of rows in \<open>P\<close> by one.
\<close>

lemma count_after_update:
  assumes "distinct (map k xs)" "r \<in> set xs" "\<not> P r" "P (g r)"
  shows "length (filter P (map (\<lambda>t. if k t = k r then g t else t) xs))
         = Suc (length (filter P xs))"
  using assms
proof (induction xs)
  case Nil
  then show ?case by simp
next
  case (Cons x xs)
  show ?case
  proof (cases "x = r")
    case True
    with Cons.prems have "\<forall>t\<in>set xs. k t \<noteq> k r" by (auto simp: image_iff)
    then have "map (\<lambda>t. if k t = k r then g t else t) xs = xs" by (rule map_other_id)
    with True Cons.prems show ?thesis by simp
  next
    case False
    with Cons.prems have "r \<in> set xs" "k x \<noteq> k r" by auto
    with Cons show ?thesis by simp
  qed
qed

section \<open>\<^verbatim>\<open>get_next_task\<close> for a known agent\<close>

lemma get_next_task_assign:
  assumes "agent_row d aid = Some a" "int (count_active d aid) < max_concurrent_tasks a"
    "next_pending d aid = Some r"
  shows "snd (get_next_task d ts aid) =
           d\<lparr>agent_tasks := map (\<lambda>t. if id_task t = id_task r
                                      then t\<lparr>status := ''assigned'', last_updated := ts\<rparr> else t)
                                (agent_tasks d),
             agents := map (\<lambda>x. if id_agent x = aid
                                 then x\<lparr>active_tasks := int (count_active d aid) + 1,
                                        updated_at := ts\<rparr>
                                 else x) (agents d)\<rparr>"
    and "fst (get_next_task d ts aid) =
           (if actual_duration r = None \<or> actual_duration r = Some 0
            then Inr (Some (returned r)) else Inl TypeError)"
  using assms by (auto simp: get_next_task_def Let_def split: option.splits)

text \<open>
  The write is \<open>active_count + 1\<close>, computed from the live count. In \<open>refill_db\<close> the
  agent's first task is completed, so its live count is 0, while the stored
  \<^verbatim>\<open>active_tasks\<close> is still 1 from the first fetch, no completion having lowered it.
  Fetching the second task writes \<open>0 + 1\<close>: the stored counter is 1 before the call and
  1 after it.
\<close>

lemma get_next_task_counter_not_incremented:
  "map active_tasks (agents refill_db) = [1] \<and>
   count_active refill_db ''qa-quality'' = 0 \<and>
   fst (get_next_task refill_db 8000000 ''qa-quality'') = Inr (Some (returned second_task)) \<and>
   map active_tasks (agents (snd (get_next_task refill_db 8000000 ''qa-quality''))) = [1]"
  by code_simp

text \<open>
  What does hold for a store with unique ids and an agent with a row \<open>a\<close>:
  \<^verbatim>\<open>get_next_task\<close> returns \<^verbatim>\<open>None\<close> and writes nothing when the agent's count of assigned
  and working tasks is at least \<^verbatim>\<open>max_concurrent_tasks\<close>, and also when the agent has no
  pending task. Otherwise it selects a pending task \<open>r\<close> of the agent with the lowest
  priority number and, among those, the earliest \<^verbatim>\<open>assigned_at\<close>; it sets the status of
  that row to \<^verbatim>\<open>'assigned'\<close> (and its \<^verbatim>\<open>last_updated\<close>) and leaves every other task row as
  it was; it sets the agent's stored \<^verbatim>\<open>active_tasks\<close> to the count before the call plus
  one, which is the live count after the call, and leaves every other agent row as it
  was. What it hands back is \<open>returned r\<close>, which has the id of \<open>r\<close> and the status
  \<^verbatim>\<open>'assigned'\<close>, provided the \<^verbatim>\<open>actual_duration\<close> of \<open>r\<close> is \<^verbatim>\<open>NULL\<close> or 0.
\<close>

theorem get_next_task_known_agent:
  assumes "wf_db d" and "agent_row d aid = Some a"
  shows
   "(max_concurrent_tasks a \<le> int (count_active d aid) \<longrightarrow>
       get_next_task d ts aid = (Inr None, d)) \<and>
    (int (count_active d aid) < max_concurrent_tasks a \<longrightarrow>
       (\<forall>t\<in>set (agent_tasks d). agent_id t = aid \<longrightarrow> status t \<noteq> ''pending'') \<longrightarrow>
       get_next_task d ts aid = (Inr None, d)) \<and>
    (int (count_active d aid) < max_concurrent_tasks a \<longrightarrow>
       (\<exists>t\<in>set (agent_tasks d). agent_id t = aid \<and> status t = ''pending'') \<longrightarrow>
       (\<exists>r. r \<in> set (agent_tasks d) \<and> agent_id r = aid \<and> status r = ''pending'' \<and>
          (\<forall>t\<in>set (agent_tasks d). agent_id t = aid \<and> status t = ''pending'' \<longrightarrow>
             priority r < priority t \<or>
             (priority r = priority t \<and> assigned_at r \<le> assigned_at t)) \<and>
          (actual_duration r = None \<or> actual_duration r = Some 0 \<longrightarrow>
             fst (get_next_task d ts aid) = Inr (Some (returned r))) \<and>
          id_r (returned r) = id_task r \<and> status_r (returned r) = ''assigned'' \<and>
          task_row (snd (get_next_task d ts aid)) (id_task r) =
            Some (r\<lparr>status := ''assigned'', last_updated := ts\<rparr>) \<and>
          (\<forall>tid. tid \<noteq> id_task r \<longrightarrow>
             task_row (snd (get_next_task d ts aid)) tid = task_row d tid) \<and>
          agent_row (snd (get_next_task d ts aid)) aid =
            Some (a\<lparr>active_tasks := int (count_active d aid) + 1, updated_at := ts\<rparr>) \<and>
          (\<forall>x. x \<noteq> aid \<longrightarrow> agent_row (snd (get_next_task d ts aid)) x = agent_row d x) \<and>
          count_active (snd (get_next_task d ts aid)) aid = count_active d aid + 1))"
proof (intro conjI impI)
  assume "max_concurrent_tasks a \<le> int (count_active d aid)"
  with assms(2) show "get_next_task d ts aid = (Inr None, d)"
    by (simp add: get_next_task_def)
next
  assume "int (count_active d aid) < max_concurrent_tasks a"
    and "\<forall>t\<in>set (agent_tasks d). agent_id t = aid \<longrightarrow> status t \<noteq> ''pending''"
  then have "next_pending d aid = None"
    by (auto simp: next_pending_None filter_empty_conv)
  with assms(2) show "get_next_task d ts aid = (Inr None, d)"
    by (simp add: get_next_task_def Let_def)
next
  assume lt: "int (count_active d aid) < max_concurrent_tasks a"
    and ex: "\<exists>t\<in>set (agent_tasks d). agent_id t = aid \<and> status t = ''pending''"
  from ex have "next_pending d aid \<noteq> None"
    by (auto simp: next_pending_None filter_empty_conv)
  then obtain r where r: "next_pending d aid = Some r" by auto
  note sel = next_pending_Some[OF r]
  note eff = get_next_task_assign[OF assms(2) lt r, of ts]
  let ?g = "\<lambda>t. t\<lparr>status := ''assigned'', last_updated := ts\<rparr>"
  let ?h = "\<lambda>x. x\<lparr>active_tasks := int (count_active d aid) + 1, updated_at := ts\<rparr>"
  from assms(1) have dist: "distinct (map id_task (agent_tasks d))"
    by (simp add: wf_db_def)
  have row: "task_row d (id_task r) = Some r"
    unfolding task_row_def using dist sel(1) by (rule find_distinct_key)
  have t1: "task_row (snd (get_next_task d ts aid)) (id_task r) = Some (?g r)"
    using row by (simp add: eff(1) task_row_def find_map_same[where g = ?g])
  have t2: "\<forall>tid. tid \<noteq> id_task r \<longrightarrow>
             task_row (snd (get_next_task d ts aid)) tid = task_row d tid"
    by (simp add: eff(1) task_row_def find_map_other[where g = ?g])
  have a1: "agent_row (snd (get_next_task d ts aid)) aid = Some (?h a)"
    using assms(2) by (simp add: eff(1) agent_row_def find_map_same[where g = ?h])
  have a2: "\<forall>x. x \<noteq> aid \<longrightarrow> agent_row (snd (get_next_task d ts aid)) x = agent_row d x"
    by (simp add: eff(1) agent_row_def find_map_other[where g = ?h])
  have c: "count_active (snd (get_next_task d ts aid)) aid = count_active d aid + 1"
    using count_after_update[OF dist sel(1),
        where P = "\<lambda>t. agent_id t = aid \<and> is_active t" and g = ?g] sel(2,3)
    by (simp add: eff(1) count_active_def is_active_def)
  from sel eff(2) t1 t2 a1 a2 c
  show "\<exists>r. r \<in> set (agent_tasks d) \<and> agent_id r = aid \<and> status r = ''pending'' \<and>
          (\<forall>t\<in>set (agent_tasks d). agent_id t = aid \<and> status t = ''pending'' \<longrightarrow>
             priority r < priority t \<or>
             (priority r = priority t \<and> assigned_at r \<le> assigned_at t)) \<and>
          (actual_duration r = None \<or> actual_duration r = Some 0 \<longrightarrow>
             fst (get_next_task d ts aid) = Inr (Some (returned r))) \<and>
          id_r (returned r) = id_task r \<and> status_r (returned r) = ''assigned'' \<and>
          task_row (snd (get_next_task d ts aid)) (id_task r) =
            Some (r\<lparr>status := ''assigned'', last_updated := ts\<rparr>) \<and>
          (\<forall>tid. tid \<noteq> id_task r \<longrightarrow>
             task_row (snd (get_next_task d ts aid)) tid = task_row d tid) \<and>
          agent_row (snd (get_next_task d ts aid)) aid =
            Some (a\<lparr>active_tasks := int (count_active d aid) + 1, updated_at := ts\<rparr>) \<and>
          (\<forall>x. x \<noteq> aid \<longrightarrow> agent_row (snd (get_next_task d ts aid)) x = agent_row d x) \<and>
          count_active (snd (get_next_task d ts aid)) aid = count_active d aid + 1"
    by (intro exI[of _ r]) (simp add: returned_def)
qed

theorem get_next_task_known_agent_witness:
  "wf_db pending_db \<and>
   agent_row pending_db ''qa-quality'' = Some (hd (agents pending_db)) \<and>
   int (count_active pending_db ''qa-quality'') < max_concurrent_tasks (hd (agents pending_db)) \<and>
   (\<exists>r. r \<in> set (agent_tasks pending_db) \<and> agent_id r = ''qa-quality'' \<and>
      status r = ''pending'' \<and>
      task_row (snd (get_next_task pending_db 2000000 ''qa-quality'')) (id_task r) =
        Some (r\<lparr>status := ''assigned'', last_updated := 2000000\<rparr>) \<and>
      agent_row (snd (get_next_task pending_db 2000000 ''qa-quality'')) ''qa-quality'' =
        Some ((hd (agents pending_db))
               \<lparr>active_tasks := int (count_active pending_db ''qa-quality'') + 1,
                updated_at := 2000000\<rparr>) \<and>
      count_active (snd (get_next_task pending_db 2000000 ''qa-quality'')) ''qa-quality'' =
        count_active pending_db ''qa-quality'' + 1) \<and>
   fst (get_next_task pending_db 2000000 ''qa-quality'') = Inr (Some (returned first_task)) \<and>
   wf_db full_db \<and>
   agent_row full_db ''qa-quality'' = Some (hd (agents full_db)) \<and>
   max_concurrent_tasks (hd (agents full_db)) \<le> int (count_active full_db ''qa-quality'') \<and>
   get_next_task full_db 8000000 ''qa-quality'' = (Inr None, full_db)"
proof -
  have p: "wf_db pending_db"
    "agent_row pending_db ''qa-quality'' = Some (hd (agents pending_db))"
    "int (count_active pending_db ''qa-quality'') < max_concurrent_tasks (hd (agents pending_db))"
    by code_simp+
  have e: "\<exists>t\<in>set (agent_tasks pending_db). agent_id t = ''qa-quality'' \<and> status t = ''pending''"
    by code_simp
  have v: "fst (get_next_task pending_db 2000000 ''qa-quality'') = Inr (Some (returned first_task))"
    by code_simp
  have f: "wf_db full_db"
    "agent_row full_db ''qa-quality'' = Some (hd (agents full_db))"
    "max_concurrent_tasks (hd (agents full_db)) \<le> int (count_active full_db ''qa-quality'')"
    by code_simp+
  from get_next_task_known_agent[OF p(1,2), of 2000000] p(3) e
  have "\<exists>r. r \<in> set (agent_tasks pending_db) \<and> agent_id r = ''qa-quality'' \<and>
      status r = ''pending'' \<and>
      task_row (snd (get_next_task pending_db 2000000 ''qa-quality'')) (id_task r) =
        Some (r\<lparr>status := ''assigned'', last_updated := 2000000\<rparr>) \<and>
      agent_row (snd (get_next_task pending_db 2000000 ''qa-quality'')) ''qa-quality'' =
        Some ((hd (agents pending_db))
               \<lparr>active_tasks := int (count_active pending_db ''qa-quality'') + 1,
                updated_at := 2000000\<rparr>) \<and>
      count_active (snd (get_next_task pending_db 2000000 ''qa-quality'')) ''qa-quality'' =
        count_active pending_db ''qa-quality'' + 1"
    by blast
  moreover from get_next_task_known_agent[OF f(1,2), of 8000000] f(3)
  have "get_next_task full_db 8000000 ''qa-quality'' = (Inr None, full_db)"
    by blast
  ultimately show ?thesis using p f v by blast
qed

text \<open>
  When the stored counter agrees with the live count before the call, the write of
  \<^verbatim>\<open>active_count + 1\<close> is an increment by one.
\<close>

lemma get_next_task_increments_in_sync:
  assumes "agent_row d aid = Some a" and "active_tasks a = int (count_active d aid)"
    and "int (count_active d aid) < max_concurrent_tasks a"
    and "next_pending d aid = Some r"
  shows "\<exists>a'. agent_row (snd (get_next_task d ts aid)) aid = Some a' \<and>
           active_tasks a' = active_tasks a + 1"
  using assms(1,2)
  by (simp add: get_next_task_assign(1)[OF assms(1,3,4)] agent_row_def
        find_map_same[where g = "\<lambda>x. x\<lparr>active_tasks := int (count_active d aid) + 1,
                                          updated_at := ts\<rparr>"])

text \<open>
  The return object reads column 11, \<^verbatim>\<open>actual_duration\<close>, where it means the
  dependencies. In \<open>requeued_db\<close> the pending task carries the duration 4 of its earlier
  completion: the call marks it assigned, commits, and raises.
\<close>

lemma get_next_task_requeued_raises:
  "map status (agent_tasks requeued_db) = [''pending''] \<and>
   map actual_duration (agent_tasks requeued_db) = [Some 4] \<and>
   fst (get_next_task requeued_db 8000000 ''qa-quality'') = Inl TypeError \<and>
   map status (agent_tasks (snd (get_next_task requeued_db 8000000 ''qa-quality'')))
     = [''assigned'']"
  by code_simp

text \<open>
  Claim C2. For a known agent below its limit \<^verbatim>\<open>get_next_task\<close> is meant to return the
  selected pending task and to increment the agent's active-task counter by one. The
  selection and the change of status are as claimed, but the object handed back is not
  the task: in \<open>pending_db\<close> the only row is \<open>first_task\<close>, and the call returns an object
  whose \<^verbatim>\<open>progress\<close> is the status text \<^verbatim>\<open>'pending'\<close>, whose \<^verbatim>\<open>assigned_at\<close> is the
  progress 0, whose \<^verbatim>\<open>started_at\<close> is the task's \<^verbatim>\<open>assigned_at\<close>, whose
  \<^verbatim>\<open>estimated_duration\<close> is the empty \<^verbatim>\<open>completed_at\<close>, whose \<^verbatim>\<open>actual_duration\<close> is the
  estimate 180 and whose \<^verbatim>\<open>last_updated\<close> is the creator \<^verbatim>\<open>'system'\<close>. On the pending
  task of \<open>requeued_db\<close>, which carries a duration, the call raises instead of returning.
  And in \<open>refill_db\<close>, where the stored counter is 1 with no task active, the counter is
  1 after the call as before it.
\<close>

theorem get_next_task_returns_shifted_columns:
  "agent_tasks pending_db = [first_task] \<and>
   fst (get_next_task pending_db 2000000 ''qa-quality'') = Inr (Some (returned first_task)) \<and>
   status first_task = ''pending'' \<and> progress_r (returned first_task) = ''pending'' \<and>
   progress first_task = 0 \<and> assigned_at_r (returned first_task) = 0 \<and>
   assigned_at first_task = 1000000 \<and> started_at_r (returned first_task) = 1000000 \<and>
   started_at first_task = None \<and> completed_at_r (returned first_task) = None \<and>
   completed_at first_task = None \<and> estimated_duration_r (returned first_task) = None \<and>
   estimated_duration first_task = 180 \<and> actual_duration_r (returned first_task) = 180 \<and>
   created_by first_task = ''system'' \<and> last_updated_r (returned first_task) = ''system'' \<and>
   map status (agent_tasks requeued_db) = [''pending''] \<and>
   fst (get_next_task requeued_db 8000000 ''qa-quality'') = Inl TypeError \<and>
   map active_tasks (agents refill_db) = [1] \<and>
   map active_tasks (agents (snd (get_next_task refill_db 8000000 ''qa-quality''))) = [1]"
  by code_simp

section \<open>Primary keys are kept\<close>

lemma id_task_set_clause: "id_task (set_clause ts st prog res dur t) = id_task t"
  by (simp add: set_clause_def)

lemma set_clause_keeps:
  "agent_id (set_clause ts st prog res dur t) = agent_id t"
  "assigned_at (set_clause ts st prog res dur t) = assigned_at t"
  by (simp_all add: set_clause_def)

lemma id_agent_update_stats: "id_agent (update_stats ts st dur a) = id_agent a"
  by (simp add: update_stats_def)

lemma id_task_new_task: "id_task (new_task uuid aid now tt ttl descr prio) = uuid"
  by (simp add: new_task_def)

lemma wf_empty_db: "wf_db empty_db"
  by (simp add: wf_db_def empty_db_def)

lemma wf_add_agent: "wf_db d \<Longrightarrow> wf_db (add_agent d ts c)"
  by (auto simp: wf_db_def add_agent_def distinct_map_filter)

lemma create_task_Inr:
  "create_task d ts task = Inr (tid, d') \<Longrightarrow>
     id_task task \<notin> id_task ` set (agent_tasks d) \<and>
     map id_task (agent_tasks d') = map id_task (agent_tasks d) @ [id_task task] \<and>
     map id_agent (agents d') = map id_agent (agents d) \<and>
     set (agent_tasks d) \<subseteq> set (agent_tasks d')"
  by (auto simp: create_task_def o_def split: if_splits
      intro!: map_key_update[where g = "\<lambda>a. a\<lparr>last_heartbeat := Some ts\<rparr>", simplified])

lemma create_task_tid: "create_task d ts task = Inr (tid, d') \<Longrightarrow> tid = id_task task"
  by (auto simp: create_task_def split: if_splits)

lemma wf_create_task:
  "wf_db d \<Longrightarrow> create_task d ts task = Inr (tid, d') \<Longrightarrow> wf_db d'"
  by (drule create_task_Inr) (auto simp: wf_db_def)

lemma update_task_status_ids:
  assumes "update_task_status d ts now tid st prog res = Inr d'"
  shows "map id_task (agent_tasks d') = map id_task (agent_tasks d)"
    and "map id_agent (agents d') = map id_agent (agents d)"
  using assms
  by (auto simp: update_task_status_def Let_def map_key_update id_task_set_clause
        id_agent_update_stats
      split: if_splits option.splits)

lemma wf_update_task_status:
  "wf_db d \<Longrightarrow> update_task_status d ts now tid st prog res = Inr d' \<Longrightarrow> wf_db d'"
  by (simp add: wf_db_def update_task_status_ids)

lemma get_next_task_ids:
  "map id_task (agent_tasks (snd (get_next_task d ts aid))) = map id_task (agent_tasks d)"
  "map id_agent (agents (snd (get_next_task d ts aid))) = map id_agent (agents d)"
  by (auto simp: get_next_task_def Let_def
        map_key_update[where g = "\<lambda>t. t\<lparr>status := ''assigned'', last_updated := ts\<rparr>", simplified]
        map_key_update[where g = "\<lambda>x. x\<lparr>active_tasks := n, updated_at := ts\<rparr>" for n, simplified]
      split: option.splits)

lemma wf_get_next_task: "wf_db d \<Longrightarrow> wf_db (snd (get_next_task d ts aid))"
  by (simp add: wf_db_def get_next_task_ids)

lemma distribute_task_Inr:
  assumes "distribute_task d uuid ts now tt ttl descr prio assigned_to = Inr (tid, d')"
  shows "\<exists>aid d1. create_task d ts (new_task uuid aid now tt ttl descr prio) = Inr (tid, d1) \<and>
           update_task_status d1 ts now tid ''assigned'' None None = Inr d'"
  using assms
  by (auto simp: distribute_task_def notify_agent_def Let_def
      split: option.splits if_splits sum.splits) blast+

lemma wf_distribute_task:
  "wf_db d \<Longrightarrow> distribute_task d uuid ts now tt ttl descr prio assigned_to = Inr (tid, d')
   \<Longrightarrow> wf_db d'"
  by (drule distribute_task_Inr) (auto dest: wf_create_task wf_update_task_status)

lemma wf_apply_op: "wf_db d \<Longrightarrow> wf_db (apply_op d op)"
  by (cases op)
     (auto simp: wf_add_agent wf_get_next_task
        dest: wf_create_task wf_update_task_status wf_distribute_task
        split: sum.splits)

text \<open>Every store reached from the empty one has unique ids in both tables.\<close>

lemma wf_run: "wf_db d \<Longrightarrow> wf_db (run d ops)"
  unfolding run_def by (induction ops arbitrary: d) (auto simp: wf_apply_op)

section \<open>Terminal states\<close>

lemma update_task_status_keeps:
  assumes "update_task_status d ts now tid st prog res = Inr d'"
    "r \<in> set (agent_tasks d)" "id_task r \<noteq> tid"
  shows "r \<in> set (agent_tasks d')"
  using assms
  by (auto simp: update_task_status_def Let_def kept_by_update
      split: if_splits option.splits)

lemma get_next_task_keeps:
  assumes "wf_db d" "r \<in> set (agent_tasks d)" "status r \<noteq> ''pending''"
  shows "r \<in> set (agent_tasks (snd (get_next_task d ts aid)))"
proof (cases "agent_row d aid")
  case None
  with assms(2) show ?thesis by (simp add: get_next_task_def)
next
  case (Some a)
  show ?thesis
  proof (cases "next_pending d aid")
    case None
    with Some assms(2) show ?thesis by (simp add: get_next_task_def Let_def)
  next
    case (Some p)
    note sel = next_pending_Some[OF Some]
    from sel(3) assms(3) have "p \<noteq> r" by auto
    with assms(1,2) sel(1) have "id_task r \<noteq> id_task p"
      by (auto simp: wf_db_def distinct_map inj_on_def)
    with assms(2) Some \<open>agent_row d aid = Some a\<close> show ?thesis
      by (auto simp: get_next_task_def Let_def kept_by_update split: option.splits)
  qed
qed

lemma apply_op_keeps:
  assumes "wf_db d" "r \<in> set (agent_tasks d)" "is_terminal r" "\<not> updates_task (id_task r) op"
  shows "r \<in> set (agent_tasks (apply_op d op))"
proof (cases op)
  case (AddAgent ts c)
  with assms(2) show ?thesis by (simp add: add_agent_def)
next
  case (CreateTask ts task)
  with assms(2) show ?thesis
    by (auto split: sum.splits dest!: create_task_Inr)
next
  case (UpdateTaskStatus ts now tid st prog res)
  with assms(2,4) show ?thesis
    by (auto split: sum.splits dest: update_task_status_keeps)
next
  case (GetNextTask ts aid)
  from assms(3) have "status r \<noteq> ''pending''" by (auto simp: is_terminal_def)
  with GetNextTask assms(1,2) show ?thesis
    by (simp add: get_next_task_keeps)
next
  case (DistributeTask uuid ts now tt ttl descr prio assigned_to)
  show ?thesis
  proof (cases "distribute_task d uuid ts now tt ttl descr prio assigned_to")
    case (Inl e)
    with DistributeTask assms(2) show ?thesis by simp
  next
    case (Inr p)
    obtain tid d' where p: "p = (tid, d')" by (cases p)
    from distribute_task_Inr[OF Inr[unfolded p]] obtain aid d1 where
      c: "create_task d ts (new_task uuid aid now tt ttl descr prio) = Inr (tid, d1)" and
      u: "update_task_status d1 ts now tid ''assigned'' None None = Inr d'"
      by blast
    from create_task_tid[OF c] have t: "tid = uuid" by (simp add: id_task_new_task)
    from create_task_Inr[OF c] assms(2) have k: "r \<in> set (agent_tasks d1)" "id_task r \<noteq> tid"
      by (auto simp: id_task_new_task t)
    from u k have "r \<in> set (agent_tasks d')" by (rule update_task_status_keeps)
    with DistributeTask Inr p show ?thesis by simp
  qed
qed

text \<open>
  A terminal status can be left. \<^verbatim>\<open>update_task_status\<close> has no condition on the current
  status: called with \<^verbatim>\<open>'working'\<close> on the completed task of \<open>completed_db\<close> it makes the
  task working again.
\<close>

theorem terminal_status_overwritten:
  "map status (agent_tasks completed_db) = [''completed''] \<and>
   map status (agent_tasks (run completed_db
      [UpdateTaskStatus 9000000 9000000 ''t1'' ''working'' (Some 50) None])) = [''working'']"
  by code_simp

lemma terminal_row_kept_run:
  assumes "wf_db d" and "r \<in> set (agent_tasks d)" and "is_terminal r"
    and "\<forall>op\<in>set ops. \<not> updates_task (id_task r) op"
  shows "r \<in> set (agent_tasks (run d ops))"
  using assms unfolding run_def
proof (induction ops arbitrary: d)
  case Nil
  then show ?case by simp
next
  case (Cons op ops)
  from Cons.prems have "wf_db (apply_op d op)" "r \<in> set (agent_tasks (apply_op d op))"
    by (auto simp: wf_apply_op apply_op_keeps)
  with Cons show ?case by simp
qed

text \<open>
  \<^verbatim>\<open>update_task_status\<close> addressed to an existing task succeeds for every status string
  and leaves the task with that status, whatever its status was before.
\<close>

lemma update_task_status_sets_status:
  assumes "task_row d tid = Some r"
  shows "\<exists>d' r'. update_task_status d ts now tid st prog res = Inr d' \<and>
           task_row d' tid = Some r' \<and> status r' = st \<and>
           id_task r' = id_task r \<and> agent_id r' = agent_id r"
proof (cases "st = ''completed'' \<or> st = ''failed''")
  case True
  let ?g = "set_clause ts st prog res (Some (td_seconds (now - assigned_at r)))"
  from True assms show ?thesis
    by (auto simp: update_task_status_def Let_def task_row_def
          find_map_same[where g = ?g] id_task_set_clause set_clause_keeps)
       (simp_all add: set_clause_def)
next
  case False
  let ?g = "set_clause ts st prog res None"
  from False assms show ?thesis
    by (auto simp: update_task_status_def Let_def task_row_def
          find_map_same[where g = ?g] id_task_set_clause set_clause_keeps)
       (simp_all add: set_clause_def)
qed

text \<open>
  Claim C7, as amended. In a store with unique ids, a task row \<open>r\<close> whose status is
  \<^verbatim>\<open>'completed'\<close> or \<^verbatim>\<open>'failed'\<close> is still in the table, unchanged in every column, after
  any sequence of \<^verbatim>\<open>get_next_task\<close>, \<^verbatim>\<open>create_task\<close>, \<^verbatim>\<open>distribute_task\<close> and
  \<^verbatim>\<open>add_agent\<close> calls and of \<^verbatim>\<open>update_task_status\<close> calls addressed to other tasks. An
  \<^verbatim>\<open>update_task_status\<close> addressed to the task itself has no guard: for every status
  \<open>st\<close>, every clock reading and every progress and result argument it succeeds and
  leaves the task, still with its id and agent, in status \<open>st\<close>.
\<close>

theorem terminal_task_kept:
  assumes "wf_db d" and "r \<in> set (agent_tasks d)" and "is_terminal r"
  shows "((\<forall>op\<in>set ops. \<not> updates_task (id_task r) op) \<longrightarrow>
            r \<in> set (agent_tasks (run d ops))) \<and>
         (\<exists>d' r'. update_task_status d ts now (id_task r) st prog res = Inr d' \<and>
            task_row d' (id_task r) = Some r' \<and> status r' = st \<and>
            id_task r' = id_task r \<and> agent_id r' = agent_id r)"
proof (intro conjI impI)
  assume "\<forall>op\<in>set ops. \<not> updates_task (id_task r) op"
  with assms show "r \<in> set (agent_tasks (run d ops))" by (rule terminal_row_kept_run)
next
  from assms(1) have "distinct (map id_task (agent_tasks d))" by (simp add: wf_db_def)
  then have "task_row d (id_task r) = Some r"
    unfolding task_row_def using assms(2) by (rule find_distinct_key)
  then show "\<exists>d' r'. update_task_status d ts now (id_task r) st prog res = Inr d' \<and>
            task_row d' (id_task r) = Some r' \<and> status r' = st \<and>
            id_task r' = id_task r \<and> agent_id r' = agent_id r"
    by (rule update_task_status_sets_status)
qed

theorem terminal_task_kept_witness:
  "wf_db completed_db \<and>
   hd (agent_tasks completed_db) \<in> set (agent_tasks completed_db) \<and>
   is_terminal (hd (agent_tasks completed_db)) \<and>
   id_task (hd (agent_tasks completed_db)) = ''t1'' \<and>
   filter (updates_task ''t1'') later_ops = [] \<and>
   hd (agent_tasks completed_db) \<in> set (agent_tasks (run completed_db later_ops)) \<and>
   (\<exists>d' r'. update_task_status completed_db 9000000 9000000 ''t1'' ''working'' (Some 50) None
              = Inr d' \<and>
      task_row d' ''t1'' = Some r' \<and> status r' = ''working'')"
proof -
  have h: "wf_db completed_db"
    "hd (agent_tasks completed_db) \<in> set (agent_tasks completed_db)"
    "is_terminal (hd (agent_tasks completed_db))"
    by code_simp+
  have i: "id_task (hd (agent_tasks completed_db)) = ''t1''" by code_simp
  have f: "filter (updates_task ''t1'') later_ops = []" by code_simp
  then have a: "\<forall>op\<in>set later_ops. \<not> updates_task ''t1'' op"
    by (simp add: filter_empty_conv)
  from terminal_task_kept[OF h, of later_ops 9000000 9000000 "''working''" "Some 50" None]
    a h i f
  show ?thesis unfolding i by blast
qed

section \<open>Terminal transitions and the agent's statistics\<close>

lemma update_stats_counters:
  "completed_tasks (update_stats ts st dur a) =
     completed_tasks a + (if st = ''completed'' then 1 else 0)"
  "failed_tasks (update_stats ts st dur a) =
     failed_tasks a + (if st = ''completed'' then 0 else 1)"
  "total_task_time (update_stats ts st dur a) = total_task_time a + dur"
  by (simp_all add: update_stats_def)

text \<open>
  One terminal transition of an existing task whose agent has a row: the task row gets
  the new status, \<^verbatim>\<open>completed_at\<close> and the computed duration, and the agent row gets one
  more completed or failed task and that same duration added to \<^verbatim>\<open>total_task_time\<close>.
\<close>

lemma terminal_transition_once:
  assumes "task_row d tid = Some r" and "agent_row d (agent_id r) = Some a"
    and "st = ''completed'' \<or> st = ''failed''"
  shows "\<exists>d'. update_task_status d ts now tid st prog res = Inr d' \<and>
     task_row d' tid = Some (set_clause ts st prog res (Some (td_seconds (now - assigned_at r))) r) \<and>
     agent_row d' (agent_id r) = Some (update_stats ts st (td_seconds (now - assigned_at r)) a)"
  using assms
  by (auto simp: update_task_status_def Let_def task_row_def agent_row_def
        find_map_same id_task_set_clause id_agent_update_stats)

text \<open>
  The computed duration is the whole seconds of the elapsed time as long as the task is
  finished within a day of its \<^verbatim>\<open>assigned_at\<close>; it always lies below 86400.
\<close>

lemma td_seconds_within_day:
  "0 \<le> d \<Longrightarrow> d < 86400000000 \<Longrightarrow> td_seconds d = d div 1000000"
  unfolding td_seconds_def by (simp add: div_less_iff_less_mult pos_imp_zdiv_nonneg_iff)

lemma td_seconds_range: "0 \<le> td_seconds d \<and> td_seconds d < 86400"
  by (simp add: td_seconds_def)

text \<open>
  Claim C3. The recorded \<^verbatim>\<open>actual_duration\<close> is meant to be the elapsed time
  \<open>now - assigned_at\<close> in whole seconds. The code takes \<^verbatim>\<open>.seconds\<close> of the time
  difference, which drops the days: the task of \<open>day_old_db\<close> was assigned at second 1
  and completed at second 86521, 86520 seconds later, and the recorded duration and the
  amount added to the agent's \<^verbatim>\<open>total_task_time\<close> are both 120.
\<close>

theorem actual_duration_drops_days:
  "map assigned_at (agent_tasks day_old_db) = [1000000] \<and>
   map completed_at (agent_tasks day_old_db) = [Some 86521000000] \<and>
   (86521000000 - 1000000) div 1000000 = (86520 :: int) \<and>
   map actual_duration (agent_tasks day_old_db) = [Some 120] \<and>
   map completed_tasks (agents day_old_db) = [1] \<and>
   map total_task_time (agents day_old_db) = [120]"
  by code_simp

text \<open>
  The terminal transition is not idempotent. The task of \<open>working_db\<close> is completed once
  in \<open>completed_db\<close>, which counts one completed task and 4 seconds; completing it again
  at second 9 counts a second completed task and adds 8 more seconds.
\<close>

theorem terminal_transition_counts_twice:
  "map completed_tasks (agents working_db) = [0] \<and>
   map completed_tasks (agents completed_db) = [1] \<and>
   map total_task_time (agents completed_db) = [4] \<and>
   map completed_tasks (agents (run completed_db
      [UpdateTaskStatus 9000000 9000000 ''t1'' ''completed'' (Some 100) (Some ''done'')])) = [2] \<and>
   map total_task_time (agents (run completed_db
      [UpdateTaskStatus 9000000 9000000 ''t1'' ''completed'' (Some 100) (Some ''done'')])) = [12]"
  by code_simp

text \<open>
  Claim C8, as amended. \<^verbatim>\<open>update_task_status\<close> has no guard against a repeated terminal
  transition: for an existing task whose agent has a row, each of two successive calls
  with \<^verbatim>\<open>'completed'\<close> or \<^verbatim>\<open>'failed'\<close> succeeds, adds one to the agent's
  \<^verbatim>\<open>completed_tasks\<close> or \<^verbatim>\<open>failed_tasks\<close> according to its own status, and adds its own
  computed duration to \<^verbatim>\<open>total_task_time\<close>. Two calls leave the counters two steps, not
  one, beyond their starting values.
\<close>

theorem terminal_transition_twice:
  assumes "task_row d tid = Some r" and "agent_row d (agent_id r) = Some a"
    and "st1 = ''completed'' \<or> st1 = ''failed''"
    and "st2 = ''completed'' \<or> st2 = ''failed''"
  shows "\<exists>d1 d2 a1 a2.
     update_task_status d ts1 now1 tid st1 prog1 res1 = Inr d1 \<and>
     agent_row d1 (agent_id r) = Some a1 \<and>
     update_task_status d1 ts2 now2 tid st2 prog2 res2 = Inr d2 \<and>
     agent_row d2 (agent_id r) = Some a2 \<and>
     completed_tasks a1 = completed_tasks a + (if st1 = ''completed'' then 1 else 0) \<and>
     failed_tasks a1 = failed_tasks a + (if st1 = ''completed'' then 0 else 1) \<and>
     total_task_time a1 = total_task_time a + td_seconds (now1 - assigned_at r) \<and>
     completed_tasks a2 = completed_tasks a1 + (if st2 = ''completed'' then 1 else 0) \<and>
     failed_tasks a2 = failed_tasks a1 + (if st2 = ''completed'' then 0 else 1) \<and>
     total_task_time a2 = total_task_time a1 + td_seconds (now2 - assigned_at r)"
proof -
  let ?r1 = "set_clause ts1 st1 prog1 res1 (Some (td_seconds (now1 - assigned_at r))) r"
  let ?a1 = "update_stats ts1 st1 (td_seconds (now1 - assigned_at r)) a"
  from terminal_transition_once[OF assms(1,2,3), of ts1 now1 prog1 res1]
  obtain d1 where d1: "update_task_status d ts1 now1 tid st1 prog1 res1 = Inr d1"
    "task_row d1 tid = Some ?r1" "agent_row d1 (agent_id r) = Some ?a1"
    by blast
  have k: "agent_id ?r1 = agent_id r" "assigned_at ?r1 = assigned_at r"
    by (rule set_clause_keeps)+
  from d1(3) have a1': "agent_row d1 (agent_id ?r1) = Some ?a1" by (simp only: k)
  from terminal_transition_once[OF d1(2) a1' assms(4), of ts2 now2 prog2 res2]
  obtain d2 where d2: "update_task_status d1 ts2 now2 tid st2 prog2 res2 = Inr d2"
    "agent_row d2 (agent_id r) =
       Some (update_stats ts2 st2 (td_seconds (now2 - assigned_at r)) ?a1)"
    unfolding k by blast
  show ?thesis
    by (intro exI[of _ d1] exI[of _ d2] exI[of _ ?a1]
          exI[of _ "update_stats ts2 st2 (td_seconds (now2 - assigned_at r)) ?a1"])
       (simp add: d1 d2 update_stats_counters)
qed

theorem terminal_transition_twice_witness:
  "task_row working_db ''t1'' = Some (hd (agent_tasks working_db)) \<and>
   agent_row working_db (agent_id (hd (agent_tasks working_db))) = Some (hd (agents working_db)) \<and>
   (\<exists>d1 d2 a1 a2.
     update_task_status working_db 5000000 5000000 ''t1'' ''completed'' (Some 100) (Some ''done'')
       = Inr d1 \<and>
     agent_row d1 ''qa-quality'' = Some a1 \<and>
     update_task_status d1 9000000 9000000 ''t1'' ''completed'' (Some 100) (Some ''done'') = Inr d2 \<and>
     agent_row d2 ''qa-quality'' = Some a2 \<and>
     completed_tasks a1 = 1 \<and> total_task_time a1 = 4 \<and>
     completed_tasks a2 = 2 \<and> total_task_time a2 = 12 \<and> failed_tasks a2 = 0)"
proof -
  have h: "task_row working_db ''t1'' = Some (hd (agent_tasks working_db))"
    "agent_row working_db (agent_id (hd (agent_tasks working_db))) = Some (hd (agents working_db))"
    by code_simp+
  have v: "agent_id (hd (agent_tasks working_db)) = ''qa-quality''"
    "assigned_at (hd (agent_tasks working_db)) = 1000000"
    "completed_tasks (hd (agents working_db)) = 0"
    "failed_tasks (hd (agents working_db)) = 0"
    "total_task_time (hd (agents working_db)) = 0"
    by code_simp+
  from terminal_transition_twice[OF h, of "''completed''" "''completed''"
      5000000 5000000 "Some 100" "Some ''done''" 9000000 9000000 "Some 100" "Some ''done''"]
  obtain d1 d2 a1 a2 where
    "update_task_status working_db 5000000 5000000 ''t1'' ''completed'' (Some 100) (Some ''done'')
       = Inr d1"
    "agent_row d1 ''qa-quality'' = Some a1"
    "update_task_status d1 9000000 9000000 ''t1'' ''completed'' (Some 100) (Some ''done'') = Inr d2"
    "agent_row d2 ''qa-quality'' = Some a2"
    "completed_tasks a1 = 1" "total_task_time a1 = 4"
    "completed_tasks a2 = 2" "total_task_time a2 = 12" "failed_tasks a2 = 0"
    unfolding v by (auto simp: td_seconds_def)
  with h show ?thesis by blast
qed

section \<open>Creating a task for a named agent\<close>

text \<open>
  When \<^verbatim>\<open>distribute_task\<close> returns, the task is not pending: \<^verbatim>\<open>notify_agent\<close> has already
  marked it assigned.
\<close>

theorem distribute_task_leaves_assigned:
  "distribute_task (run empty_db [AddAgent 0 qa_config]) ''t1'' 1000000 1000000
      ''testing'' ''first'' '''' 1 (Some ''qa-quality'') = Inr (''t1'', notified_db) \<and>
   map agent_id (agent_tasks notified_db) = [''qa-quality''] \<and>
   map priority (agent_tasks notified_db) = [1] \<and>
   map status (agent_tasks notified_db) = [''assigned'']"
  by code_simp

text \<open>
  Claim C5, as amended. \<^verbatim>\<open>distribute_task\<close> with \<^verbatim>\<open>assigned_to="qa-quality"\<close> and
  priority 1, given a task id not yet in the table, succeeds in every store, whatever the
  load of \<^verbatim>\<open>qa-quality\<close> and whether or not it has a row. Inside the call
  \<^verbatim>\<open>create_task\<close> stores the task with agent \<^verbatim>\<open>qa-quality\<close>, priority 1 and status
  \<^verbatim>\<open>'pending'\<close>; \<^verbatim>\<open>notify_agent\<close> then marks it assigned, so that in the store
  \<^verbatim>\<open>distribute_task\<close> leaves behind the task has agent \<^verbatim>\<open>qa-quality\<close>, priority 1 and
  status \<^verbatim>\<open>'assigned'\<close>.
\<close>

theorem distribute_task_explicit_agent:
  assumes "uuid \<notin> id_task ` set (agent_tasks d)"
  shows "\<exists>d1 d2 r1 r2.
     create_task d ts (new_task uuid ''qa-quality'' now tt ttl descr 1) = Inr (uuid, d1) \<and>
     task_row d1 uuid = Some r1 \<and>
     agent_id r1 = ''qa-quality'' \<and> status r1 = ''pending'' \<and> priority r1 = 1 \<and>
     notify_agent d1 ts now ''qa-quality'' uuid = Inr d2 \<and>
     distribute_task d uuid ts now tt ttl descr 1 (Some ''qa-quality'') = Inr (uuid, d2) \<and>
     task_row d2 uuid = Some r2 \<and>
     agent_id r2 = ''qa-quality'' \<and> status r2 = ''assigned'' \<and> priority r2 = 1"
proof -
  let ?t = "new_task uuid ''qa-quality'' now tt ttl descr 1"
  have idt: "id_task ?t = uuid" by (rule id_task_new_task)
  from assms obtain d1 where c: "create_task d ts ?t = Inr (uuid, d1)"
    by (auto simp: create_task_def idt)
  from assms have fresh: "\<forall>x\<in>set (agent_tasks d). \<not> id_task x = uuid" by auto
  from c obtain r1 where r1: "task_row d1 uuid = Some r1" "status r1 = ''pending''"
    "agent_id r1 = ''qa-quality''" "priority r1 = 1"
    using find_append_fresh[where P = "\<lambda>x. id_task x = uuid", OF fresh]
    by (auto simp: create_task_def task_row_def idt new_task_def split: if_splits)
  let ?d2 = "d1\<lparr>agent_tasks := map (\<lambda>t. if id_task t = uuid
                 then set_clause ts ''assigned'' None None None t else t) (agent_tasks d1)\<rparr>"
  have u: "notify_agent d1 ts now ''qa-quality'' uuid = Inr ?d2"
    by (simp add: notify_agent_def update_task_status_def)
  have r2: "task_row ?d2 uuid = Some (set_clause ts ''assigned'' None None None r1)"
    using r1(1) by (simp add: task_row_def find_map_same id_task_set_clause)
  have dt: "distribute_task d uuid ts now tt ttl descr 1 (Some ''qa-quality'') = Inr (uuid, ?d2)"
    using c u by (simp add: distribute_task_def)
  show ?thesis
    by (intro exI[of _ d1] exI[of _ ?d2] exI[of _ r1]
          exI[of _ "set_clause ts ''assigned'' None None None r1"])
       (simp add: c r1 r2 dt u set_clause_def)
qed

theorem distribute_task_explicit_agent_witness:
  "''t9'' \<notin> id_task ` set (agent_tasks full_db) \<and>
   count_active full_db ''qa-quality'' = 3 \<and>
   (\<exists>d2 r2.
     distribute_task full_db ''t9'' 9000000 9000000 ''testing'' ''ninth'' '''' 1 (Some ''qa-quality'')
       = Inr (''t9'', d2) \<and>
     task_row d2 ''t9'' = Some r2 \<and>
     agent_id r2 = ''qa-quality'' \<and> status r2 = ''assigned'' \<and> priority r2 = 1)"
proof -
  have h: "''t9'' \<notin> id_task ` set (agent_tasks full_db)"
    "count_active full_db ''qa-quality'' = 3"
    by code_simp+
  from distribute_task_explicit_agent[OF h(1), of 9000000 9000000 "''testing''" "''ninth''" "''''"] h
  show ?thesis by blast
qed

section \<open>The stored \<^verbatim>\<open>active_tasks\<close> counter\<close>

text \<open>
  \<^verbatim>\<open>update_task_status\<close> never writes \<^verbatim>\<open>active_tasks\<close>, whatever transition it makes;
  only \<^verbatim>\<open>get_next_task\<close> does.
\<close>

lemma update_task_status_active_tasks:
  "update_task_status d ts now tid st prog res = Inr d' \<Longrightarrow>
   map active_tasks (agents d') = map active_tasks (agents d)"
  by (auto simp: update_task_status_def Let_def update_stats_def
      split: if_splits option.splits)

text \<open>
  Claim C1. The stored \<^verbatim>\<open>active_tasks\<close> of an agent is meant to equal its number of
  assigned and working tasks after any sequence of operations. It does not: after a
  task is created for \<^verbatim>\<open>qa-quality\<close> and marked assigned by \<^verbatim>\<open>notify_agent\<close>
  (\<open>notified_db\<close>) the counter is 0 with one task assigned, and after a task is fetched
  with \<^verbatim>\<open>get_next_task\<close>, started and completed (\<open>completed_db\<close>) the counter is 1 with
  no task assigned or working.
\<close>

theorem active_tasks_counter_stale:
  "map active_tasks (agents notified_db) = [0] \<and>
   count_active notified_db ''qa-quality'' = 1 \<and>
   map active_tasks (agents completed_db) = [1] \<and>
   count_active completed_db ''qa-quality'' = 0"
  by code_simp

section \<open>Registering an agent again\<close>

text \<open>
  Whatever row the agent had, after \<^verbatim>\<open>add_agent\<close> its row holds the configuration and
  the defaults of the schema.
\<close>

lemma add_agent_row:
  "agent_row (add_agent d ts c) (cfg_id c) =
     Some \<lparr>id_agent = cfg_id c,
           name = (case cfg_name c of None \<Rightarrow> cfg_id c | Some n \<Rightarrow> n),
           nickname = (case cfg_nickname c of None \<Rightarrow> '''' | Some n \<Rightarrow> n),
           title_agent = (case cfg_title c of None \<Rightarrow> '''' | Some n \<Rightarrow> n),
           model = (case cfg_model c of None \<Rightarrow> '''' | Some n \<Rightarrow> n),
           status_agent = ''available'',
           max_concurrent_tasks = MAX_CONCURRENT_TASKS_PER_AGENT,
           active_tasks = 0, completed_tasks = 0, failed_tasks = 0, total_task_time = 0,
           average_response_time = 0, last_heartbeat = None,
           created_at = ts, updated_at = ts\<rparr>"
  unfolding agent_row_def add_agent_def
  by (simp add: find_append_fresh)

text \<open>
  Claim C6. Registering an agent again with the same configuration is meant to keep the
  counters and the heartbeat of its row. \<^verbatim>\<open>INSERT OR REPLACE\<close> replaces the whole row:
  in \<open>completed_db\<close> the agent \<^verbatim>\<open>qa-quality\<close> has one active, one completed task, 4 seconds
  of task time and a heartbeat, and after \<^verbatim>\<open>add_agent\<close> with the configuration it was
  created from all four are back at their defaults.
\<close>

theorem add_agent_resets_counters:
  "map id_agent (agents completed_db) = [cfg_id qa_config] \<and>
   map active_tasks (agents completed_db) = [1] \<and>
   map completed_tasks (agents completed_db) = [1] \<and>
   map total_task_time (agents completed_db) = [4] \<and>
   map last_heartbeat (agents completed_db) = [Some 1000000] \<and>
   map active_tasks (agents (add_agent completed_db 9000000 qa_config)) = [0] \<and>
   map completed_tasks (agents (add_agent completed_db 9000000 qa_config)) = [0] \<and>
   map total_task_time (agents (add_agent completed_db 9000000 qa_config)) = [0] \<and>
   map last_heartbeat (agents (add_agent completed_db 9000000 qa_config)) = [None]"
  by code_simp

section \<open>Progress updates\<close>

text \<open>
  An update with status \<^verbatim>\<open>'working'\<close> and a progress value sets the status, the progress,
  \<^verbatim>\<open>last_updated\<close> and also \<^verbatim>\<open>started_at\<close>, whatever the status of the task was; the other
  columns stay.
\<close>

lemma progress_update_row:
  assumes "task_row d tid = Some r"
  shows "\<exists>d'. update_task_status d ts now tid ''working'' (Some p) None = Inr d' \<and>
     task_row d' tid = Some (r\<lparr>status := ''working'', last_updated := ts, progress := p,
                              started_at := Some ts\<rparr>)"
  using assms
  by (simp add: update_task_status_def task_row_def find_map_same id_task_set_clause)
     (simp add: set_clause_def)

text \<open>
  Claim C9. A progress update of a task that is already working is meant to change its
  progress and \<^verbatim>\<open>last_updated\<close> only. The code appends
  \<^verbatim>\<open>started_at = CURRENT_TIMESTAMP\<close> whenever the new status is \<^verbatim>\<open>'working'\<close>: the task of
  \<open>working_db\<close> started at second 3, and a progress update at second 4 moves its
  \<^verbatim>\<open>started_at\<close> to second 4.
\<close>

theorem progress_update_resets_started_at:
  "map status (agent_tasks working_db) = [''working''] \<and>
   map started_at (agent_tasks working_db) = [Some 3000000] \<and>
   map status (agent_tasks (run working_db
      [UpdateTaskStatus 4000000 4000000 ''t1'' ''working'' (Some 20) None])) = [''working''] \<and>
   map started_at (agent_tasks (run working_db
      [UpdateTaskStatus 4000000 4000000 ''t1'' ''working'' (Some 20) None])) = [Some 4000000]"
  by code_simp

end
